theory Spec2Isabelle
  imports Complex_Main
begin

section \<open>Python built-ins used by the pipeline\<close>

text \<open>
  Strings are lists of 8-bit characters (code points below 256). Python exceptions that
  the modelled code can meet are values of \<open>py_error\<close>; a fallible operation returns
  \<open>py_error + 'a\<close> with \<open>Inl\<close> for the raised exception.
\<close>

datatype py_error = ValueError | IndexError | ZeroDivisionError

text \<open>\<^verbatim>\<open>str.strip()\<close>: removes leading and trailing whitespace.\<close>

definition is_space :: "char \<Rightarrow> bool" where
  "is_space c = (of_char c \<in> {9, 10, 11, 12, 13, 28, 29, 30, 31, 32, 133, 160 :: nat})"

definition strip :: "string \<Rightarrow> string" where
  "strip s = rev (dropWhile is_space (rev (dropWhile is_space s)))"

text \<open>\<^verbatim>\<open>s.split(sep)\<close> for a one-character separator.\<close>

fun split_on :: "char \<Rightarrow> string \<Rightarrow> string list" where
  "split_on sep [] = [[]]"
| "split_on sep (c # cs) =
     (if c = sep then [] # split_on sep cs
      else (case split_on sep cs of [] \<Rightarrow> [[c]] | p # ps \<Rightarrow> (c # p) # ps))"

text \<open>\<^verbatim>\<open>xs[i]\<close> for a non-negative index: \<^verbatim>\<open>IndexError\<close> out of range.\<close>

definition item :: "'a list \<Rightarrow> nat \<Rightarrow> py_error + 'a" where
  "item xs i = (if i < length xs then Inr (xs ! i) else Inl IndexError)"

text \<open>
  \<^verbatim>\<open>int(s)\<close> on a string: surrounding whitespace is dropped (for \<^verbatim>\<open>int\<close> the
  characters 28 to 31 are not whitespace), then an optional sign and decimal digits,
  single underscores allowed between digits; anything else raises \<^verbatim>\<open>ValueError\<close>.
  The interpreter's limit on the number of digits is not modelled.
\<close>

definition is_digit :: "char \<Rightarrow> bool" where
  "is_digit c = (48 \<le> (of_char c :: nat) \<and> (of_char c :: nat) \<le> 57)"

definition digit_val :: "char \<Rightarrow> nat" where
  "digit_val c = of_char c - 48"

definition is_int_space :: "char \<Rightarrow> bool" where
  "is_int_space c = (of_char c \<in> {9, 10, 11, 12, 13, 32, 133, 160 :: nat})"

fun digits_value :: "nat \<Rightarrow> bool \<Rightarrow> string \<Rightarrow> nat option" where
  "digits_value acc prev [] = (if prev then Some acc else None)"
| "digits_value acc prev (c # cs) =
     (if is_digit c then digits_value (10 * acc + digit_val c) True cs
      else if c = CHR ''_'' \<and> prev then digits_value acc False cs
      else None)"

definition py_int :: "string \<Rightarrow> py_error + int" where
  "py_int s =
     (let t = rev (dropWhile is_int_space (rev (dropWhile is_int_space s)));
          neg = (t \<noteq> [] \<and> hd t = CHR ''-'');
          body = (if t \<noteq> [] \<and> (hd t = CHR ''-'' \<or> hd t = CHR ''+'') then tl t else t)
      in case digits_value 0 False body of
           None \<Rightarrow> Inl ValueError
         | Some n \<Rightarrow> Inr (if neg then - int n else int n))"

text \<open>\<^verbatim>\<open>str(n)\<close> for a natural number, and the format specification \<^verbatim>\<open>0{w}d\<close>.\<close>

definition digit_char :: "nat \<Rightarrow> char" where
  "digit_char d = ''0123456789'' ! d"

fun str_nat :: "nat \<Rightarrow> string" where
  "str_nat n =
     (if n < 10 then [digit_char n] else str_nat (n div 10) @ [digit_char (n mod 10)])"

declare str_nat.simps [simp del]

definition zfill :: "nat \<Rightarrow> string \<Rightarrow> string" where
  "zfill w s = replicate (w - length s) (CHR ''0'') @ s"

definition format_0d :: "nat \<Rightarrow> int \<Rightarrow> string" where
  "format_0d w i =
     (if i < 0 then CHR ''-'' # zfill (w - 1) (str_nat (nat (- i)))
      else zfill w (str_nat (nat i)))"

text \<open>\<^verbatim>\<open>sep.join(xs)\<close>.\<close>

fun join :: "string \<Rightarrow> string list \<Rightarrow> string" where
  "join sep [] = []"
| "join sep [x] = x"
| "join sep (x # y # ys) = x @ sep @ join sep (y # ys)"

text \<open>\<^verbatim>\<open>a / b\<close> on floats (modelled as reals): \<^verbatim>\<open>ZeroDivisionError\<close> for a zero divisor.\<close>

definition truediv :: "real \<Rightarrow> nat \<Rightarrow> py_error + real" where
  "truediv a n = (if n = 0 then Inl ZeroDivisionError else Inr (a / real n))"

section \<open>The store\<close>

text \<open>
  The tables of \<^verbatim>\<open>chess.db\<close> that \<^verbatim>\<open>analysis.py\<close> reads and writes, with the columns it
  uses (schema in \<^verbatim>\<open>matrix.py\<close> and \<^verbatim>\<open>SCHEMA_SQL\<close>). A table is the list of its rows,
  in no meaningful order; a nullable column is an \<open>option\<close>. \<^verbatim>\<open>players.name\<close> is
  \<^verbatim>\<open>UNIQUE\<close>, \<^verbatim>\<open>games.id\<close> and \<^verbatim>\<open>analysis.game_id\<close> are primary keys, and
  \<^verbatim>\<open>(game_id, ply)\<close> is the primary key of \<^verbatim>\<open>moves\<close>.
\<close>

record player =
  p_id :: int
  p_name :: string

record game =
  g_id :: int
  g_white_id :: int
  g_black_id :: int
  g_result :: string
  g_date :: "string option"
  g_ply_count :: "int option"

record move =
  m_game_id :: int
  m_ply :: int
  m_uci :: string

record analysis_row =
  game_id :: int
  plies_analyzed :: nat
  acpl_white :: real
  acpl_black :: real
  accuracy_white :: real
  accuracy_black :: real
  ms_total :: int
  engine :: string
  movetime_ms :: nat
  skipped_plies :: nat
  note_str :: "string option"

record db =
  players :: "player list"
  games :: "game list"
  moves :: "move list"
  analysis :: "analysis_row list"

datatype sql_error = IntegrityError

subsection \<open>Upsert of analysis rows\<close>

text \<open>
  One \<^verbatim>\<open>INSERT ... ON CONFLICT(game_id) DO UPDATE SET ...\<close>: a row with the same
  \<^verbatim>\<open>game_id\<close> has the ten columns of the \<^verbatim>\<open>SET\<close> clause overwritten by the new values,
  otherwise the row is inserted.
\<close>

fun upsert_row :: "analysis_row \<Rightarrow> analysis_row list \<Rightarrow> analysis_row list" where
  "upsert_row r [] = [r]"
| "upsert_row r (x # xs) =
     (if game_id x = game_id r then
        x\<lparr>plies_analyzed := plies_analyzed r,
          acpl_white := acpl_white r, acpl_black := acpl_black r,
          accuracy_white := accuracy_white r, accuracy_black := accuracy_black r,
          ms_total := ms_total r, engine := engine r,
          movetime_ms := movetime_ms r, skipped_plies := skipped_plies r,
          note_str := note_str r\<rparr> # xs
      else x # upsert_row r xs)"

text \<open>
  The statement on a connection opened by \<^verbatim>\<open>db_connect_rw\<close>, which runs
  \<^verbatim>\<open>PRAGMA foreign_keys = ON\<close>: \<^verbatim>\<open>FOREIGN KEY(game_id) REFERENCES games(id)\<close> is
  enforced, and a row whose game is not stored raises \<^verbatim>\<open>sqlite3.IntegrityError\<close>.
\<close>

definition execute_upsert :: "db \<Rightarrow> analysis_row \<Rightarrow> sql_error + db" where
  "execute_upsert d r =
     (if game_id r \<in> set (map g_id (games d))
      then Inr (d\<lparr>analysis := upsert_row r (analysis d)\<rparr>)
      else Inl IntegrityError)"

fun executemany :: "db \<Rightarrow> analysis_row list \<Rightarrow> sql_error + db" where
  "executemany d [] = Inr d"
| "executemany d (r # rs) =
     (case execute_upsert d r of Inl e \<Rightarrow> Inl e | Inr d' \<Rightarrow> executemany d' rs)"

text \<open>
  \<^verbatim>\<open>upsert_analysis_batch\<close>. The result is the committed store; when a statement raises,
  the exception leaves the function before \<^verbatim>\<open>commit\<close> and the store stays as it was.
\<close>

definition upsert_analysis_batch :: "db \<Rightarrow> analysis_row list \<Rightarrow> sql_error + db" where
  "upsert_analysis_batch d rows = (if rows = [] then Inr d else executemany d rows)"

subsection \<open>Date normalization\<close>

text \<open>\<^verbatim>\<open>1 if parts[i]=="??" else int(parts[i])\<close>.\<close>

definition date_field :: "string list \<Rightarrow> nat \<Rightarrow> py_error + int" where
  "date_field parts i =
     (case item parts i of
        Inl e \<Rightarrow> Inl e
      | Inr p \<Rightarrow> if p = ''??'' then Inr 1 else py_int p)"

text \<open>The \<^verbatim>\<open>try\<close> block of \<^verbatim>\<open>parse_pgn_date_to_iso\<close>.\<close>

definition parse_date_body :: "string \<Rightarrow> py_error + string" where
  "parse_date_body s =
     (let parts = split_on (CHR ''.'') s in
      case (case item parts 0 of Inl e \<Rightarrow> Inl e | Inr p \<Rightarrow> py_int p) of
        Inl e \<Rightarrow> Inl e
      | Inr y \<Rightarrow>
         (case date_field parts 1 of
            Inl e \<Rightarrow> Inl e
          | Inr m \<Rightarrow>
             (case date_field parts 2 of
                Inl e \<Rightarrow> Inl e
              | Inr d \<Rightarrow> Inr (format_0d 4 y @ ''-'' @ format_0d 2 m @ ''-'' @ format_0d 2 d))))"

text \<open>
  \<^verbatim>\<open>parse_pgn_date_to_iso\<close>: \<^verbatim>\<open>None\<close> for a missing or empty tag and for one that starts
  with \<^verbatim>\<open>?\<close>; \<^verbatim>\<open>except Exception\<close> turns every exception of the block into \<^verbatim>\<open>None\<close>.
\<close>

definition parse_pgn_date_to_iso :: "string option \<Rightarrow> string option" where
  "parse_pgn_date_to_iso s =
     (case s of
        None \<Rightarrow> None
      | Some s \<Rightarrow>
         if s = [] \<or> take 1 s = ''?'' then None
         else (case parse_date_body s of Inl e \<Rightarrow> None | Inr r \<Rightarrow> Some r))"

subsection \<open>Identity resolver\<close>

text \<open>\<^verbatim>\<open>resolve_player_id\<close>: \<^verbatim>\<open>SELECT id FROM players WHERE name=?\<close>, first row.\<close>

definition resolve_player_id :: "db \<Rightarrow> string \<Rightarrow> int option" where
  "resolve_player_id d name =
     (case filter (\<lambda>p. p_name p = name) (players d) of
        [] \<Rightarrow> None
      | p # _ \<Rightarrow> Some (p_id p))"

text \<open>\<^verbatim>\<open>tags.get(key) or default\<close>: the default replaces a missing and an empty value.\<close>

definition tag_or :: "(string \<rightharpoonup> string) \<Rightarrow> string \<Rightarrow> string \<Rightarrow> string" where
  "tag_or tags key dflt =
     (case tags key of None \<Rightarrow> dflt | Some v \<Rightarrow> if v = [] then dflt else v)"

definition white_name :: "(string \<rightharpoonup> string) \<Rightarrow> string" where
  "white_name tags = strip (tag_or tags ''White'' ''Unknown'')"

definition black_name :: "(string \<rightharpoonup> string) \<Rightarrow> string" where
  "black_name tags = strip (tag_or tags ''Black'' ''Unknown'')"

text \<open>
  The two candidate queries, \<^verbatim>\<open>ORDER BY id\<close>. A comparison with a \<^verbatim>\<open>NULL\<close> column is
  not true in SQL, so a row with a null \<^verbatim>\<open>date\<close> or \<^verbatim>\<open>ply_count\<close> never satisfies
  \<^verbatim>\<open>date=?\<close> or \<^verbatim>\<open>ply_count=?\<close>.
\<close>

definition select_games_dated :: "db \<Rightarrow> int \<Rightarrow> int \<Rightarrow> string \<Rightarrow> string \<Rightarrow> nat \<Rightarrow> int list" where
  "select_games_dated d w_id b_id res date_iso ply_count =
     sort (map g_id (filter
       (\<lambda>g. g_white_id g = w_id \<and> g_black_id g = b_id \<and> g_result g = res
            \<and> g_date g = Some date_iso \<and> g_ply_count g = Some (int ply_count))
       (games d)))"

definition select_games_undated :: "db \<Rightarrow> int \<Rightarrow> int \<Rightarrow> string \<Rightarrow> nat \<Rightarrow> int list" where
  "select_games_undated d w_id b_id res ply_count =
     sort (map g_id (filter
       (\<lambda>g. g_white_id g = w_id \<and> g_black_id g = b_id \<and> g_result g = res
            \<and> (g_date g = None \<or> g_date g = Some [])
            \<and> g_ply_count g = Some (int ply_count))
       (games d)))"

text \<open>The branch on \<^verbatim>\<open>if date_iso:\<close> (false for \<^verbatim>\<open>None\<close> and for the empty string).\<close>

definition candidate_ids :: "db \<Rightarrow> int \<Rightarrow> int \<Rightarrow> string \<Rightarrow> string option \<Rightarrow> nat \<Rightarrow> int list" where
  "candidate_ids d w_id b_id res date_iso ply_count =
     (case date_iso of
        None \<Rightarrow> select_games_undated d w_id b_id res ply_count
      | Some dt \<Rightarrow>
         if dt = [] then select_games_undated d w_id b_id res ply_count
         else select_games_dated d w_id b_id res dt ply_count)"

text \<open>\<^verbatim>\<open>SELECT uci FROM moves WHERE game_id=? ORDER BY ply LIMIT ?\<close>.\<close>

definition select_ucis :: "db \<Rightarrow> int \<Rightarrow> nat \<Rightarrow> string list" where
  "select_ucis d gid limit =
     take limit (map m_uci (sort_key m_ply (filter (\<lambda>m. m_game_id m = gid) (moves d))))"

text \<open>The loop \<^verbatim>\<open>for gid in cands\<close>: \<open>Some gid\<close> when it returns from inside the loop.\<close>

fun first_match :: "db \<Rightarrow> string list \<Rightarrow> int list \<Rightarrow> int option" where
  "first_match d probe [] = None"
| "first_match d probe (gid # cands) =
     (if select_ucis d gid (length probe) = probe then Some gid
      else first_match d probe cands)"

definition resolve_game_id :: "db \<Rightarrow> (string \<rightharpoonup> string) \<Rightarrow> string list \<Rightarrow> int option" where
  "resolve_game_id d tags uci_moves =
     (let white = white_name tags;
          black = black_name tags;
          res = tag_or tags ''Result'' ''*'';
          date_iso = parse_pgn_date_to_iso (tags ''Date'');
          ply_count = length uci_moves;
          w_id = resolve_player_id d white;
          b_id = resolve_player_id d black
      in case (w_id, b_id) of
           (Some w, Some b) \<Rightarrow>
             (case candidate_ids d w b res date_iso ply_count of
                [] \<Rightarrow> None
              | [c] \<Rightarrow> Some c
              | c # c' # cs \<Rightarrow>
                 (case first_match d (take 10 uci_moves) (c # c' # cs) of
                    Some gid \<Rightarrow> Some gid
                  | None \<Rightarrow> Some c))
         | _ \<Rightarrow> None)"

section \<open>Engine scores\<close>

text \<open>
  The engine binding (python-chess, \<^verbatim>\<open>chess.engine\<close>) reports an evaluation as a
  \<^verbatim>\<open>PovScore\<close>: a \<^verbatim>\<open>Score\<close> relative to the side to move, together with that side.
  A \<^verbatim>\<open>Score\<close> is one of
  \<^item> \<^verbatim>\<open>Cp(n)\<close>: a centipawn value;
  \<^item> \<^verbatim>\<open>Mate(n)\<close>: mate in \<open>n\<close> for the point of view when \<open>n > 0\<close>, being mated in
    \<open>-n\<close> when \<open>n < 0\<close>, and already checkmated when \<open>n = 0\<close> (what a UCI engine
    prints as \<^verbatim>\<open>score mate 0\<close> for the side to move);
  \<^item> \<^verbatim>\<open>MateGiven\<close>: the point of view has delivered checkmate; it is the negation
    of \<^verbatim>\<open>Mate(0)\<close>.
  The methods below are the ones \<^verbatim>\<open>_score_cp_white\<close> calls: \<^verbatim>\<open>__neg__\<close>,
  \<^verbatim>\<open>mate()\<close>, \<^verbatim>\<open>is_mate()\<close>, \<^verbatim>\<open>score(mate_score=...)\<close> and \<^verbatim>\<open>PovScore.white()\<close>.
  Colours are booleans as in the binding: \<^verbatim>\<open>WHITE = True\<close>, \<^verbatim>\<open>BLACK = False\<close>.
\<close>

datatype score = Cp int | Mate int | MateGiven

record pov_score =
  relative :: score
  pov_turn :: bool

fun neg_score :: "score \<Rightarrow> score" where
  "neg_score (Cp n) = Cp (- n)"
| "neg_score (Mate n) = (if n = 0 then MateGiven else Mate (- n))"
| "neg_score MateGiven = Mate 0"

fun mate :: "score \<Rightarrow> int option" where
  "mate (Cp n) = None"
| "mate (Mate n) = Some n"
| "mate MateGiven = Some 0"

definition is_mate :: "pov_score \<Rightarrow> bool" where
  "is_mate ps = (mate (relative ps) \<noteq> None)"

fun score_with :: "int \<Rightarrow> score \<Rightarrow> int" where
  "score_with mate_score (Cp n) = n"
| "score_with mate_score (Mate n) = (if 0 < n then mate_score - n else - mate_score - n)"
| "score_with mate_score MateGiven = mate_score"

definition white :: "pov_score \<Rightarrow> score" where
  "white ps = (if pov_turn ps then relative ps else neg_score (relative ps))"

text \<open>
  \<^verbatim>\<open>_score_cp_white\<close>. Python's \<^verbatim>\<open>mate_ply and mate_ply > 0\<close> is false for \<^verbatim>\<open>None\<close>,
  for \<open>0\<close> and for every negative number.
\<close>

definition score_cp_white :: "pov_score \<Rightarrow> int" where
  "score_cp_white eval =
     (if is_mate eval then
        (case mate (white eval) of
           None \<Rightarrow> - 100000
         | Some mate_ply \<Rightarrow> if mate_ply \<noteq> 0 \<and> 0 < mate_ply then 100000 else - 100000)
      else score_with 100000 (white eval))"

text \<open>
  Which side a forced mate favours, read off the score type: from White's point of view
  \<^verbatim>\<open>MateGiven\<close> and \<^verbatim>\<open>Mate(n)\<close> with \<open>n > 0\<close> are mates for White, \<^verbatim>\<open>Mate(n)\<close> with
  \<open>n \<le> 0\<close> are mates against White.
\<close>

fun mate_for :: "score \<Rightarrow> bool" where
  "mate_for (Cp n) = False"
| "mate_for (Mate n) = (0 < n)"
| "mate_for MateGiven = True"

definition mate_for_white :: "pov_score \<Rightarrow> bool" where
  "mate_for_white ps = mate_for (white ps)"

text \<open>
  The Ply Score in the words of the specification, for comparison with the conversion
  of the code: the centipawn value, or the sentinel +100000 for a forced mate in the
  side's favour and -100000 for one against it. \<open>spec_score_white\<close> is the score from
  White's point of view, \<open>spec_score_mover\<close> the score in the perspective of the side
  that makes the move.
\<close>

definition spec_score_white :: "pov_score \<Rightarrow> int" where
  "spec_score_white ps =
     (case white ps of
        Cp n \<Rightarrow> n
      | Mate n \<Rightarrow> if mate_for (Mate n) then 100000 else - 100000
      | MateGiven \<Rightarrow> if mate_for MateGiven then 100000 else - 100000)"

definition spec_score_mover :: "bool \<Rightarrow> pov_score \<Rightarrow> int" where
  "spec_score_mover mover_is_white ps =
     (if mover_is_white then spec_score_white ps else - spec_score_white ps)"

text \<open>\<^verbatim>\<open>_acpl_to_accuracy\<close>. Python floats are modelled as real numbers.\<close>

definition acpl_to_accuracy :: "real \<Rightarrow> real" where
  "acpl_to_accuracy acpl = max 0 (100 - 0.5 * sqrt (max 0 acpl))"

section \<open>Analysis of one job\<close>

text \<open>The analysis knobs of the module.\<close>

definition MOVETIME_MS :: nat where
  "MOVETIME_MS = 20"

definition SKIP_PLIES :: nat where
  "SKIP_PLIES = 0"

definition MAX_PLIES :: "nat option" where
  "MAX_PLIES = None"

record job =
  job_game_id :: int
  initial_fen :: string
  uci_moves :: "string list"
  job_tags :: "string \<rightharpoonup> string"

text \<open>
  What the job meets outside the module, as parameters: the chess library's board (of an
  arbitrary type \<open>'b\<close>), the engine process and the clock.
  \<^item> \<open>new_board fen\<close> is \<^verbatim>\<open>chess.Board(fen)\<close>; \<open>Inl msg\<close> when it raises, with the
    message of the exception.
  \<^item> \<open>turn b\<close> is \<^verbatim>\<open>board.turn\<close> (\<open>True\<close> for White).
  \<^item> \<open>push_uci b u\<close> is the board after \<^verbatim>\<open>board.push_uci(u)\<close>; \<open>None\<close> when it raises.
  \<^item> \<open>analyse n b\<close> is \<^verbatim>\<open>_engine.analyse(board, limit)["score"]\<close> for the call number
    \<open>n\<close> of the job (counted from 0); \<open>Inl\<close> when it raises. The engine is a process
    with its own state and a time limit, so its answer may depend on the call.
  \<^item> \<open>elapsed_ms\<close> is the wall-clock time reported in \<^verbatim>\<open>ms_total\<close>.
\<close>

datatype engine_fault = EngineTerminatedError | EngineError string | OtherException string

record 'b chess_env =
  new_board :: "string \<Rightarrow> string + 'b"
  turn :: "'b \<Rightarrow> bool"
  push_uci :: "'b \<Rightarrow> string \<Rightarrow> 'b option"
  analyse :: "nat \<Rightarrow> 'b \<Rightarrow> engine_fault + pov_score"
  elapsed_ms :: int

text \<open>The three \<^verbatim>\<open>except\<close> clauses around the loop.\<close>

fun fault_note :: "engine_fault \<Rightarrow> string" where
  "fault_note EngineTerminatedError = ''engine terminated''"
| "fault_note (EngineError msg) = ''engine error: '' @ msg"
| "fault_note (OtherException msg) = ''exception: '' @ msg"

text \<open>The local variables of \<^verbatim>\<open>_analyze_job\<close> that the loop updates.\<close>

record 'b loop_state =
  board :: 'b
  acpl_w :: real
  acpl_b :: real
  n_w :: nat
  n_b :: nat
  ply_idx :: nat
  note_list :: "string list"
  calls :: nat

definition initial_state :: "'b \<Rightarrow> 'b loop_state" where
  "initial_state b =
     \<lparr>board = b, acpl_w = 0, acpl_b = 0, n_w = 0, n_b = 0, ply_idx = 0,
      note_list = [], calls = 0\<rparr>"

text \<open>
  The two evaluations of a ply in the mover's perspective, as the loop body computes
  them: \<^verbatim>\<open>s_best_stm\<close> from the evaluation before the move, \<^verbatim>\<open>s_after_mover\<close> from the
  evaluation of the board after the move.
\<close>

definition s_best_stm :: "bool \<Rightarrow> pov_score \<Rightarrow> int" where
  "s_best_stm stm_is_white info_best =
     (let s_best_white = score_cp_white info_best
      in if stm_is_white then s_best_white else - s_best_white)"

definition s_after_mover :: "bool \<Rightarrow> pov_score \<Rightarrow> int" where
  "s_after_mover turn_after info_played =
     (let s_played_white = score_cp_white info_played;
          s_after_stm = (if turn_after then s_played_white else - s_played_white)
      in - s_after_stm)"

text \<open>
  One iteration of \<^verbatim>\<open>for u in job.uci_moves\<close>: \<open>Inr\<close> when the loop goes on with the
  next move, \<open>Inl\<close> when it ends here (a \<^verbatim>\<open>break\<close>, or an exception caught by the
  handlers around the loop, which append their note).
\<close>

definition score_ply :: "'b chess_env \<Rightarrow> 'b loop_state \<Rightarrow> string \<Rightarrow> 'b loop_state + 'b loop_state" where
  "score_ply E st0 u =
     (let st = st0\<lparr>ply_idx := ply_idx st0 + 1\<rparr> in
      if SKIP_PLIES \<noteq> 0 \<and> ply_idx st \<le> SKIP_PLIES then
        (case push_uci E (board st) u of
           None \<Rightarrow> Inl (st\<lparr>note_list := note_list st @ [''illegal at ply '' @ str_nat (ply_idx st)]\<rparr>)
         | Some b \<Rightarrow> Inr (st\<lparr>board := b\<rparr>))
      else if (case MAX_PLIES of None \<Rightarrow> False | Some mx \<Rightarrow> mx \<noteq> 0 \<and> mx < ply_idx st) then Inl st
      else
        (let stm_is_white = turn E (board st) in
         case analyse E (calls st) (board st) of
           Inl e \<Rightarrow> Inl (st\<lparr>calls := calls st + 1, note_list := note_list st @ [fault_note e]\<rparr>)
         | Inr info_best \<Rightarrow>
            (case push_uci E (board st) u of
               None \<Rightarrow>
                 Inl (st\<lparr>calls := calls st + 1,
                         note_list := note_list st
                           @ [''illegal move '' @ u @ '' at ply '' @ str_nat (ply_idx st)]\<rparr>)
             | Some b \<Rightarrow>
                (case analyse E (calls st + 1) b of
                   Inl e \<Rightarrow>
                     Inl (st\<lparr>board := b, calls := calls st + 2,
                             note_list := note_list st @ [fault_note e]\<rparr>)
                 | Inr info_played \<Rightarrow>
                    (let loss = max 0 (s_best_stm stm_is_white info_best
                                       - s_after_mover (turn E b) info_played)
                     in if stm_is_white
                        then Inr (st\<lparr>board := b, calls := calls st + 2,
                                     acpl_w := acpl_w st + real_of_int \<bar>loss\<bar>,
                                     n_w := n_w st + 1\<rparr>)
                        else Inr (st\<lparr>board := b, calls := calls st + 2,
                                     acpl_b := acpl_b st + real_of_int \<bar>loss\<bar>,
                                     n_b := n_b st + 1\<rparr>))))))"

fun analyze_loop :: "'b chess_env \<Rightarrow> string list \<Rightarrow> 'b loop_state \<Rightarrow> 'b loop_state" where
  "analyze_loop E [] st = st"
| "analyze_loop E (u # us) st =
     (case score_ply E st u of
        Inl st' \<Rightarrow> st'
      | Inr st' \<Rightarrow> analyze_loop E us st')"

text \<open>The code after the loop: the averages, the accuracies and the result tuple.\<close>

definition finish :: "'b chess_env \<Rightarrow> int \<Rightarrow> 'b loop_state \<Rightarrow> py_error + analysis_row" where
  "finish E gid st =
     (case truediv (acpl_w st) (max 1 (n_w st)) of
        Inl e \<Rightarrow> Inl e
      | Inr aw \<Rightarrow>
         (case truediv (acpl_b st) (max 1 (n_b st)) of
            Inl e \<Rightarrow> Inl e
          | Inr ab \<Rightarrow>
             Inr \<lparr>game_id = gid, plies_analyzed = n_w st + n_b st,
                  acpl_white = aw, acpl_black = ab,
                  accuracy_white = acpl_to_accuracy aw, accuracy_black = acpl_to_accuracy ab,
                  ms_total = elapsed_ms E, engine = ''Stockfish'',
                  movetime_ms = MOVETIME_MS, skipped_plies = SKIP_PLIES,
                  note_str = (if note_list st = [] then None else Some (join ''; '' (note_list st)))\<rparr>))"

text \<open>
  \<^verbatim>\<open>_analyze_job\<close>: \<open>Inl\<close> would be an exception leaving the function.
\<close>

definition analyze_job :: "'b chess_env \<Rightarrow> job \<Rightarrow> py_error + analysis_row" where
  "analyze_job E j =
     (case new_board E (initial_fen j) of
        Inl e \<Rightarrow>
          Inr \<lparr>game_id = job_game_id j, plies_analyzed = 0,
               acpl_white = 0, acpl_black = 0,
               accuracy_white = 100, accuracy_black = 100,
               ms_total = elapsed_ms E, engine = ''Stockfish'',
               movetime_ms = MOVETIME_MS, skipped_plies = SKIP_PLIES,
               note_str = Some (''bad FEN: '' @ e)\<rparr>
      | Inr b \<Rightarrow> finish E (job_game_id j) (analyze_loop E (uci_moves j) (initial_state b)))"

text \<open>
  The counters \<^verbatim>\<open>n_w\<close> and \<^verbatim>\<open>n_b\<close> of a job when \<^verbatim>\<open>_analyze_job\<close> returns: the
  plies evaluated for White and for Black (none when the board cannot be built).
\<close>

definition plies_evaluated :: "'b chess_env \<Rightarrow> job \<Rightarrow> nat \<times> nat" where
  "plies_evaluated E j =
     (case new_board E (initial_fen j) of
        Inl e \<Rightarrow> (0, 0)
      | Inr b \<Rightarrow>
         (let st = analyze_loop E (uci_moves j) (initial_state b) in (n_w st, n_b st)))"

subsection \<open>A sample environment\<close>

text \<open>
  A small environment for concrete runs: the board is the number of plies played, White
  moves on even boards, \<^verbatim>\<open>0000\<close> is the one illegal move, and the engine answers four
  calls and then terminates.
\<close>

definition sample_replies :: "(engine_fault + pov_score) list" where
  "sample_replies =
     [Inr \<lparr>relative = Cp 30, pov_turn = True\<rparr>,
      Inr \<lparr>relative = Cp 70, pov_turn = False\<rparr>,
      Inr \<lparr>relative = Cp 70, pov_turn = False\<rparr>,
      Inr \<lparr>relative = Cp 330, pov_turn = True\<rparr>]"

definition sample_env :: "nat chess_env" where
  "sample_env =
     \<lparr>new_board = (\<lambda>fen. if fen = ''startpos'' then Inr 0 else Inl ''invalid FEN''),
      turn = even,
      push_uci = (\<lambda>b u. if u = ''0000'' then None else Some (Suc b)),
      analyse = (\<lambda>n b. if n < length sample_replies then sample_replies ! n
                        else Inl EngineTerminatedError),
      elapsed_ms = 7\<rparr>"

definition sample_job :: job where
  "sample_job =
     \<lparr>job_game_id = 5, initial_fen = ''startpos'',
      uci_moves = [''e2e4'', ''e7e5'', ''g1f3'', ''b8c6''], job_tags = Map.empty\<rparr>"

text \<open>
  The same environment with an engine that sees a mate in one for White before the move
  and reports the checkmated side to move after it.
\<close>

definition mating_env :: "nat chess_env" where
  "mating_env =
     sample_env\<lparr>analyse :=
       (\<lambda>n b. if n = 0 then Inr \<lparr>relative = Mate 1, pov_turn = True\<rparr>
               else Inr \<lparr>relative = Mate 0, pov_turn = False\<rparr>)\<rparr>"

subsection \<open>A sample store\<close>

text \<open>
  A small store for concrete runs: two players, two games of the same pairing, result,
  date and length (10 and 11) whose moves differ at the second ply, a third game without
  a date, and an empty analysis table. The tags name the dated games; \<open>undated_tags\<close>
  carry a fully unknown date.
\<close>

definition sample_db :: db where
  "sample_db =
     \<lparr>players = [\<lparr>p_id = 1, p_name = ''Alice''\<rparr>, \<lparr>p_id = 2, p_name = ''Bob''\<rparr>],
      games =
        [\<lparr>g_id = 11, g_white_id = 1, g_black_id = 2, g_result = ''1-0'',
          g_date = Some ''2020-01-01'', g_ply_count = Some 3\<rparr>,
         \<lparr>g_id = 10, g_white_id = 1, g_black_id = 2, g_result = ''1-0'',
          g_date = Some ''2020-01-01'', g_ply_count = Some 3\<rparr>,
         \<lparr>g_id = 12, g_white_id = 1, g_black_id = 2, g_result = ''1-0'',
          g_date = None, g_ply_count = Some 3\<rparr>],
      moves =
        [\<lparr>m_game_id = 10, m_ply = 2, m_uci = ''e7e5''\<rparr>,
         \<lparr>m_game_id = 10, m_ply = 1, m_uci = ''e2e4''\<rparr>,
         \<lparr>m_game_id = 10, m_ply = 3, m_uci = ''g1f3''\<rparr>,
         \<lparr>m_game_id = 11, m_ply = 1, m_uci = ''e2e4''\<rparr>,
         \<lparr>m_game_id = 11, m_ply = 2, m_uci = ''c7c5''\<rparr>,
         \<lparr>m_game_id = 11, m_ply = 3, m_uci = ''g1f3''\<rparr>],
      analysis = []\<rparr>"

definition sample_tags :: "string \<rightharpoonup> string" where
  "sample_tags =
     [''White'' \<mapsto> '' Alice'', ''Black'' \<mapsto> ''Bob'', ''Result'' \<mapsto> ''1-0'',
      ''Date'' \<mapsto> ''2020.??.??'']"


text \<open>Two analysis rows for game 10, and a store without any game.\<close>

definition sample_row :: analysis_row where
  "sample_row =
     \<lparr>game_id = 10, plies_analyzed = 2, acpl_white = 100, acpl_black = 400,
      accuracy_white = 95, accuracy_black = 90, ms_total = 7, engine = ''Stockfish'',
      movetime_ms = 20, skipped_plies = 0, note_str = Some ''engine terminated''\<rparr>"

definition sample_row' :: analysis_row where
  "sample_row' =
     \<lparr>game_id = 10, plies_analyzed = 3, acpl_white = 25, acpl_black = 0,
      accuracy_white = 97.5, accuracy_black = 100, ms_total = 9, engine = ''Stockfish'',
      movetime_ms = 20, skipped_plies = 0, note_str = None\<rparr>"

definition empty_db :: db where
  "empty_db = \<lparr>players = [], games = [], moves = [], analysis = []\<rparr>"

section \<open>Properties of the score conversion\<close>

lemma score_cp_white_mate_range:
  "is_mate ps \<Longrightarrow> score_cp_white ps = 100000 \<or> score_cp_white ps = - 100000"
  by (simp add: score_cp_white_def split: option.splits)

lemma score_cp_white_mate_sign:
  assumes "is_mate ps" and "white ps \<noteq> MateGiven"
  shows "score_cp_white ps = (if mate_for_white ps then 100000 else - 100000)"
proof (cases "white ps")
  case (Cp n)
  with assms(1) show ?thesis
    by (cases "relative ps") (auto simp: is_mate_def white_def split: if_splits)
next
  case (Mate n)
  with assms(1) show ?thesis
    by (simp add: score_cp_white_def mate_for_white_def)
next
  case MateGiven
  with assms(2) show ?thesis by simp
qed

text \<open>
  Away from \<^verbatim>\<open>MateGiven\<close> in White's point of view, the conversion is the Ply
  Score of the specification.
\<close>

lemma score_cp_white_eq_spec:
  assumes "white ps \<noteq> MateGiven"
  shows "score_cp_white ps = spec_score_white ps"
proof (cases "relative ps")
  case (Cp n)
  then show ?thesis
    by (simp add: score_cp_white_def spec_score_white_def is_mate_def white_def)
next
  case (Mate n)
  then show ?thesis
    using assms
    by (cases "pov_turn ps")
      (auto simp: score_cp_white_def spec_score_white_def is_mate_def white_def
        split: if_splits)
next
  case MateGiven
  then show ?thesis
    using assms
    by (cases "pov_turn ps")
      (auto simp: score_cp_white_def spec_score_white_def is_mate_def white_def
        split: if_splits)
qed

text \<open>
  Claim C4. A forced mate is converted to exactly +100000 when it favours White and to
  exactly -100000 otherwise. The conversion misses one case: for a position in which
  Black, to move, is checkmated, the engine reports \<^verbatim>\<open>Mate(0)\<close> relative to Black;
  from White's point of view this is \<^verbatim>\<open>MateGiven\<close>, whose \<^verbatim>\<open>mate()\<close> is \<open>0\<close>, and
  the conversion returns -100000 although White has won. In Black's (the side to move's)
  perspective the value is then +100000 for a mate against it.
\<close>

theorem score_cp_white_checkmated_black:
  "is_mate \<lparr>relative = Mate 0, pov_turn = False\<rparr>
   \<and> white \<lparr>relative = Mate 0, pov_turn = False\<rparr> = MateGiven
   \<and> mate_for_white \<lparr>relative = Mate 0, pov_turn = False\<rparr>
   \<and> score_cp_white \<lparr>relative = Mate 0, pov_turn = False\<rparr> = - 100000
   \<and> - score_cp_white \<lparr>relative = Mate 0, pov_turn = False\<rparr> = 100000
   \<and> score_with 100000 (white \<lparr>relative = Mate 0, pov_turn = False\<rparr>) = 100000"
  by (simp add: score_cp_white_def is_mate_def white_def mate_for_white_def)

text \<open>
  The effect in the loop: White's mating move is evaluated at +100000 before the move and
  at -100000 after it, and is charged a loss of 200000.
\<close>

lemma mating_move_loss:
  "analyze_loop mating_env [''h5f7''] (initial_state 0) =
     \<lparr>board = 1, acpl_w = 200000, acpl_b = 0, n_w = 1, n_b = 0, ply_idx = 1,
      note_list = [], calls = 2\<rparr>"
  by (simp add: mating_env_def sample_env_def initial_state_def score_ply_def
      SKIP_PLIES_def MAX_PLIES_def Let_def s_best_stm_def s_after_mover_def
      score_cp_white_def is_mate_def white_def)

section \<open>Properties of the accuracy mapping\<close>

lemma acpl_to_accuracy_antimono:
  assumes "a \<le> b"
  shows "acpl_to_accuracy b \<le> acpl_to_accuracy a"
proof -
  have "sqrt (max 0 a) \<le> sqrt (max 0 b)"
    using assms by (simp add: max.coboundedI2)
  then show ?thesis
    unfolding acpl_to_accuracy_def by (simp add: max.coboundedI2)
qed

text \<open>
  Claim C3. For a non-negative average centipawn loss the accuracy mapping returns
  \<open>max 0 (100 - 0.5 * sqrt (max 0 acpl))\<close>; the value lies between 0 and 100, is 100 at
  loss 0, and does not increase when the loss grows.
\<close>

theorem acpl_to_accuracy_spec:
  assumes "0 \<le> acpl"
  shows "acpl_to_accuracy acpl = max 0 (100 - 0.5 * sqrt (max 0 acpl))
       \<and> 0 \<le> acpl_to_accuracy acpl \<and> acpl_to_accuracy acpl \<le> 100
       \<and> acpl_to_accuracy 0 = 100
       \<and> (\<forall>b. acpl \<le> b \<longrightarrow> acpl_to_accuracy b \<le> acpl_to_accuracy acpl)"
proof -
  have "0 \<le> sqrt (max 0 acpl)" by simp
  then have "acpl_to_accuracy acpl \<le> 100"
    unfolding acpl_to_accuracy_def by simp
  moreover have "0 \<le> acpl_to_accuracy acpl"
    unfolding acpl_to_accuracy_def by simp
  moreover have "acpl_to_accuracy 0 = 100"
    unfolding acpl_to_accuracy_def by simp
  ultimately show ?thesis
    using acpl_to_accuracy_antimono by (simp add: acpl_to_accuracy_def)
qed

theorem acpl_to_accuracy_spec_witness:
  "(0::real) \<le> 400 \<and> acpl_to_accuracy 400 = 90
   \<and> 0 \<le> acpl_to_accuracy 400 \<and> acpl_to_accuracy 400 \<le> 100
   \<and> acpl_to_accuracy 0 = 100
   \<and> acpl_to_accuracy 1600 \<le> acpl_to_accuracy 400"
proof -
  have h: "(0::real) \<le> 400" by simp
  have "sqrt 400 = sqrt (20\<^sup>2)" by simp
  then have s: "sqrt 400 = 20" by (simp only: real_sqrt_abs abs_numeral)
  have v: "acpl_to_accuracy 400 = 90"
    using acpl_to_accuracy_spec [OF h] by (simp add: s)
  show ?thesis
    using acpl_to_accuracy_spec [OF h] v by simp
qed

section \<open>Properties of the analysis of a job\<close>

lemma score_ply_isl_iff:
  "isl (score_ply E st u) \<longleftrightarrow>
     (case analyse E (calls st) (board st) of
        Inl e \<Rightarrow> True
      | Inr info_best \<Rightarrow>
         (case push_uci E (board st) u of
            None \<Rightarrow> True
          | Some b \<Rightarrow> isl (analyse E (calls st + 1) b)))"
  by (simp add: score_ply_def SKIP_PLIES_def MAX_PLIES_def Let_def split: sum.splits option.splits)

lemma score_ply_Inl:
  assumes "score_ply E st u = Inl st'"
  shows "note_list st' \<noteq> [] \<and> acpl_w st' = acpl_w st \<and> acpl_b st' = acpl_b st
       \<and> n_w st' = n_w st \<and> n_b st' = n_b st"
  using assms
  by (auto simp: score_ply_def SKIP_PLIES_def MAX_PLIES_def Let_def split: sum.splits option.splits if_splits)

lemma score_ply_Inr:
  assumes "score_ply E st u = Inr st'"
  shows "note_list st' = note_list st \<and> n_w st' + n_b st' = Suc (n_w st + n_b st)
       \<and> n_w st \<le> n_w st' \<and> n_b st \<le> n_b st'
       \<and> (n_w st' = 0 \<longrightarrow> acpl_w st' = acpl_w st)
       \<and> (n_b st' = 0 \<longrightarrow> acpl_b st' = acpl_b st)"
  using assms
  by (auto simp: score_ply_def SKIP_PLIES_def MAX_PLIES_def Let_def split: sum.splits option.splits if_splits)

lemma analyze_loop_count_le:
  "n_w (analyze_loop E us st) + n_b (analyze_loop E us st) \<le> n_w st + n_b st + length us"
proof (induction us arbitrary: st)
  case Nil
  show ?case by simp
next
  case (Cons u us)
  show ?case
  proof (cases "score_ply E st u")
    case (Inl st')
    then show ?thesis using score_ply_Inl [OF Inl] by simp
  next
    case (Inr st')
    then show ?thesis using score_ply_Inr [OF Inr] Cons.IH [of st'] by simp
  qed
qed

lemma analyze_loop_zero_side:
  "(n_w st = 0 \<longrightarrow> acpl_w st = 0) \<Longrightarrow> (n_b st = 0 \<longrightarrow> acpl_b st = 0) \<Longrightarrow>
   (n_w (analyze_loop E us st) = 0 \<longrightarrow> acpl_w (analyze_loop E us st) = 0)
   \<and> (n_b (analyze_loop E us st) = 0 \<longrightarrow> acpl_b (analyze_loop E us st) = 0)"
proof (induction us arbitrary: st)
  case Nil
  then show ?case by simp
next
  case (Cons u us)
  show ?case
  proof (cases "score_ply E st u")
    case (Inl st')
    then show ?thesis using score_ply_Inl [OF Inl] Cons.prems by simp
  next
    case (Inr st')
    have "n_w st' = 0 \<longrightarrow> acpl_w st' = 0" "n_b st' = 0 \<longrightarrow> acpl_b st' = 0"
      using score_ply_Inr [OF Inr] Cons.prems by auto
    then show ?thesis using Cons.IH [of st'] Inr by simp
  qed
qed

lemma analyze_loop_all_scored:
  assumes "n_w (analyze_loop E pre st) + n_b (analyze_loop E pre st) = n_w st + n_b st + length pre"
  shows "analyze_loop E (pre @ rest) st = analyze_loop E rest (analyze_loop E pre st)
       \<and> note_list (analyze_loop E pre st) = note_list st"
  using assms
proof (induction pre arbitrary: st)
  case Nil
  show ?case by simp
next
  case (Cons u us)
  show ?case
  proof (cases "score_ply E st u")
    case (Inl st')
    then show ?thesis using score_ply_Inl [OF Inl] Cons.prems by simp
  next
    case (Inr st')
    have "n_w (analyze_loop E us st') + n_b (analyze_loop E us st') = n_w st' + n_b st' + length us"
      using Cons.prems Inr score_ply_Inr [OF Inr] by simp
    then show ?thesis using Cons.IH [of st'] Inr score_ply_Inr [OF Inr] by simp
  qed
qed

lemma finish_Inr:
  "finish E gid st =
     Inr \<lparr>game_id = gid, plies_analyzed = n_w st + n_b st,
          acpl_white = acpl_w st / real (max 1 (n_w st)),
          acpl_black = acpl_b st / real (max 1 (n_b st)),
          accuracy_white = acpl_to_accuracy (acpl_w st / real (max 1 (n_w st))),
          accuracy_black = acpl_to_accuracy (acpl_b st / real (max 1 (n_b st))),
          ms_total = elapsed_ms E, engine = ''Stockfish'',
          movetime_ms = MOVETIME_MS, skipped_plies = SKIP_PLIES,
          note_str = (if note_list st = [] then None else Some (join ''; '' (note_list st)))\<rparr>"
  by (simp add: finish_def truediv_def)

text \<open>
  The loop body on a ply whose two evaluations and push succeed: with \<open>best\<close> and
  \<open>after\<close> the two scores as the code converts them, it adds \<open>max 0 (best - after)\<close>
  to the mover's accumulator and leaves the other side's accumulator alone; the amount
  is never negative, and it is zero when \<open>best \<le> after\<close>.
\<close>

lemma ply_loss:
  assumes best: "analyse E (calls st) (board st) = Inr info_best"
      and push: "push_uci E (board st) u = Some b"
      and played: "analyse E (calls st + 1) b = Inr info_played"
  defines "best \<equiv> s_best_stm (turn E (board st)) info_best"
      and "after \<equiv> s_after_mover (turn E b) info_played"
  shows "\<exists>st'. score_ply E st u = Inr st'
           \<and> (if turn E (board st)
               then acpl_w st' = acpl_w st + real_of_int (max 0 (best - after))
                    \<and> acpl_b st' = acpl_b st
               else acpl_b st' = acpl_b st + real_of_int (max 0 (best - after))
                    \<and> acpl_w st' = acpl_w st)
           \<and> 0 \<le> max 0 (best - after)
           \<and> (best \<le> after \<longrightarrow> acpl_w st' = acpl_w st \<and> acpl_b st' = acpl_b st)
           \<and> (turn E b = (\<not> turn E (board st)) \<longrightarrow>
                after = (if turn E (board st) then score_cp_white info_played
                         else - score_cp_white info_played))"
proof -
  let ?loss = "max 0 (best - after)"
  have nonneg: "0 \<le> ?loss" by simp
  have abs: "\<bar>?loss\<bar> = ?loss" by simp
  have zero: "best \<le> after \<Longrightarrow> ?loss = 0" by simp
  have persp: "turn E b = (\<not> turn E (board st)) \<Longrightarrow>
      after = (if turn E (board st) then score_cp_white info_played
               else - score_cp_white info_played)"
    by (simp add: after_def s_after_mover_def)
  show ?thesis
  proof (cases "turn E (board st)")
    case True
    have "score_ply E st u =
        Inr (st\<lparr>ply_idx := ply_idx st + 1, board := b, calls := calls st + 2,
                acpl_w := acpl_w st + real_of_int \<bar>?loss\<bar>, n_w := n_w st + 1\<rparr>)"
      using best push played True
      by (simp add: score_ply_def SKIP_PLIES_def MAX_PLIES_def best_def after_def)
    then show ?thesis using True nonneg zero persp by (simp add: abs)
  next
    case False
    have "score_ply E st u =
        Inr (st\<lparr>ply_idx := ply_idx st + 1, board := b, calls := calls st + 2,
                acpl_b := acpl_b st + real_of_int \<bar>?loss\<bar>, n_b := n_b st + 1\<rparr>)"
      using best push played False
      by (simp add: score_ply_def SKIP_PLIES_def MAX_PLIES_def best_def after_def)
    then show ?thesis using False nonneg zero persp by (simp add: abs)
  qed
qed


lemma ply_loss_example:
  "analyse sample_env 0 0 = Inr \<lparr>relative = Cp 30, pov_turn = True\<rparr>
   \<and> push_uci sample_env 0 ''e2e4'' = Some 1
   \<and> analyse sample_env 1 1 = Inr \<lparr>relative = Cp 70, pov_turn = False\<rparr>
   \<and> s_best_stm True \<lparr>relative = Cp 30, pov_turn = True\<rparr> = 30
   \<and> s_after_mover False \<lparr>relative = Cp 70, pov_turn = False\<rparr> = - 70
   \<and> (\<exists>st'. score_ply sample_env (initial_state 0) ''e2e4'' = Inr st'
         \<and> acpl_w st' = 100 \<and> acpl_b st' = 0)"
proof -
  let ?st = "initial_state (0::nat)"
  have a: "analyse sample_env (calls ?st) (board ?st) = Inr \<lparr>relative = Cp 30, pov_turn = True\<rparr>"
    by (simp add: sample_env_def sample_replies_def initial_state_def)
  have p: "push_uci sample_env (board ?st) ''e2e4'' = Some 1"
    by (simp add: sample_env_def initial_state_def)
  have b: "analyse sample_env (calls ?st + 1) 1 = Inr \<lparr>relative = Cp 70, pov_turn = False\<rparr>"
    by (simp add: sample_env_def sample_replies_def initial_state_def)
  have t: "turn sample_env (board ?st)" "\<not> turn sample_env 1"
    by (simp_all add: sample_env_def initial_state_def)
  have s1: "s_best_stm True \<lparr>relative = Cp 30, pov_turn = True\<rparr> = 30"
    by (simp add: s_best_stm_def score_cp_white_def is_mate_def white_def)
  have s2: "s_after_mover False \<lparr>relative = Cp 70, pov_turn = False\<rparr> = - 70"
    by (simp add: s_after_mover_def score_cp_white_def is_mate_def white_def)
  from ply_loss [OF a p b] obtain st' where
    "score_ply sample_env ?st ''e2e4'' = Inr st'"
    "acpl_w st' = acpl_w ?st + real_of_int (max 0 (30 - (- 70)))" "acpl_b st' = acpl_b ?st"
    using t s1 s2 by auto
  then have "\<exists>st'. score_ply sample_env ?st ''e2e4'' = Inr st' \<and> acpl_w st' = 100 \<and> acpl_b st' = 0"
    by (simp add: initial_state_def)
  then show ?thesis using a p b s1 s2 by (simp add: initial_state_def)
qed

text \<open>
  When the move changes the side to move and neither evaluation is \<^verbatim>\<open>MateGiven\<close> in
  White's point of view, the two scores of the loop are the mover-perspective Ply Scores
  of the specification.
\<close>

lemma ply_loss_spec:
  assumes best: "analyse E (calls st) (board st) = Inr info_best"
      and push: "push_uci E (board st) u = Some b"
      and played: "analyse E (calls st + 1) b = Inr info_played"
      and flip: "turn E b = (\<not> turn E (board st))"
      and nb: "white info_best \<noteq> MateGiven"
      and np: "white info_played \<noteq> MateGiven"
  shows "s_best_stm (turn E (board st)) info_best = spec_score_mover (turn E (board st)) info_best
       \<and> s_after_mover (turn E b) info_played = spec_score_mover (turn E (board st)) info_played"
  using flip score_cp_white_eq_spec [OF nb] score_cp_white_eq_spec [OF np]
  by (simp add: s_best_stm_def s_after_mover_def spec_score_mover_def)

text \<open>
  Claim C2. The loss added for a scored ply is \<open>max 0 (best - after)\<close> with \<open>best\<close> and
  \<open>after\<close> the evaluations before and after the move in the mover's perspective, so
  that a move which does not worsen the mover's position adds nothing. The loop fails
  this at White's mating move: the engine reports a mate in one for White before the
  move and the checkmated side to move (\<^verbatim>\<open>Mate(0)\<close> relative to Black) after it; in
  White's perspective both evaluations are +100000, but the conversion of the second
  score gives -100000 for \<open>after\<close>, and the move is charged a loss of 200000.
\<close>

theorem mating_move_charged:
  "analyse mating_env 0 0 = Inr \<lparr>relative = Mate 1, pov_turn = True\<rparr>
   \<and> push_uci mating_env 0 ''h5f7'' = Some 1
   \<and> analyse mating_env 1 1 = Inr \<lparr>relative = Mate 0, pov_turn = False\<rparr>
   \<and> turn mating_env 0 \<and> \<not> turn mating_env 1
   \<and> spec_score_mover True \<lparr>relative = Mate 1, pov_turn = True\<rparr> = 100000
   \<and> spec_score_mover True \<lparr>relative = Mate 0, pov_turn = False\<rparr> = 100000
   \<and> s_best_stm True \<lparr>relative = Mate 1, pov_turn = True\<rparr> = 100000
   \<and> s_after_mover False \<lparr>relative = Mate 0, pov_turn = False\<rparr> = - 100000
   \<and> score_ply mating_env (initial_state 0) ''h5f7'' =
        Inr \<lparr>board = 1, acpl_w = 200000, acpl_b = 0, n_w = 1, n_b = 0, ply_idx = 1,
             note_list = [], calls = 2\<rparr>"
proof -
  have env: "analyse mating_env 0 0 = Inr \<lparr>relative = Mate 1, pov_turn = True\<rparr>"
    "push_uci mating_env 0 ''h5f7'' = Some 1"
    "analyse mating_env 1 1 = Inr \<lparr>relative = Mate 0, pov_turn = False\<rparr>"
    "turn mating_env 0" "\<not> turn mating_env 1"
    by (simp_all add: mating_env_def sample_env_def)
  have spec: "spec_score_mover True \<lparr>relative = Mate 1, pov_turn = True\<rparr> = 100000"
    "spec_score_mover True \<lparr>relative = Mate 0, pov_turn = False\<rparr> = 100000"
    by (simp_all add: spec_score_mover_def spec_score_white_def white_def)
  have code: "s_best_stm True \<lparr>relative = Mate 1, pov_turn = True\<rparr> = 100000"
    "s_after_mover False \<lparr>relative = Mate 0, pov_turn = False\<rparr> = - 100000"
    by (simp_all add: s_best_stm_def s_after_mover_def score_cp_white_def is_mate_def white_def)
  have step: "score_ply mating_env (initial_state 0) ''h5f7'' =
        Inr \<lparr>board = 1, acpl_w = 200000, acpl_b = 0, n_w = 1, n_b = 0, ply_idx = 1,
             note_list = [], calls = 2\<rparr>"
    using env code
    by (simp add: score_ply_def initial_state_def SKIP_PLIES_def MAX_PLIES_def)
  show ?thesis using env spec code step by simp
qed

text \<open>
  Claim C5. \<^verbatim>\<open>_analyze_job\<close> always returns a result (the division by
  \<^verbatim>\<open>max(1, n)\<close> never raises), and a side for which zero plies were evaluated gets
  average centipawn loss 0 and accuracy 100.
\<close>

theorem empty_side_safe:
  "\<exists>row. analyze_job E j = Inr row
     \<and> plies_analyzed row = fst (plies_evaluated E j) + snd (plies_evaluated E j)
     \<and> (fst (plies_evaluated E j) = 0 \<longrightarrow> acpl_white row = 0 \<and> accuracy_white row = 100)
     \<and> (snd (plies_evaluated E j) = 0 \<longrightarrow> acpl_black row = 0 \<and> accuracy_black row = 100)"
proof (cases "new_board E (initial_fen j)")
  case (Inl e)
  then show ?thesis
    by (simp add: analyze_job_def plies_evaluated_def)
next
  case (Inr b)
  let ?st = "analyze_loop E (uci_moves j) (initial_state b)"
  have inv: "(n_w ?st = 0 \<longrightarrow> acpl_w ?st = 0) \<and> (n_b ?st = 0 \<longrightarrow> acpl_b ?st = 0)"
    by (rule analyze_loop_zero_side) (simp_all add: initial_state_def)
  have acc0: "acpl_to_accuracy 0 = 100"
    by (simp add: acpl_to_accuracy_def)
  have job: "analyze_job E j = finish E (job_game_id j) ?st"
    using Inr by (simp add: analyze_job_def)
  have pl: "plies_evaluated E j = (n_w ?st, n_b ?st)"
    using Inr by (simp add: plies_evaluated_def Let_def)
  show ?thesis
    unfolding job pl finish_Inr using inv acc0 by simp
qed

theorem empty_side_safe_witness:
  "plies_evaluated sample_env (sample_job\<lparr>uci_moves := [''e2e4'', ''0000'']\<rparr>) = (1, 0)
   \<and> (\<exists>row. analyze_job sample_env (sample_job\<lparr>uci_moves := [''e2e4'', ''0000'']\<rparr>) = Inr row
         \<and> plies_analyzed row = 1 \<and> acpl_black row = 0 \<and> accuracy_black row = 100)"
proof -
  let ?j = "sample_job\<lparr>uci_moves := [''e2e4'', ''0000'']\<rparr>"
  have pl: "plies_evaluated sample_env ?j = (1, 0)"
    by (simp add: plies_evaluated_def sample_job_def sample_env_def sample_replies_def
        initial_state_def score_ply_def SKIP_PLIES_def MAX_PLIES_def Let_def)
  show ?thesis
    using empty_side_safe [of sample_env ?j] unfolding pl by simp
qed

text \<open>
  Claim C6. Let the first \<open>k\<close> plies of a job (the moves \<open>pre\<close>) be fully scored,
  \<open>sk\<close> being the loop state after them, and let the next ply be interrupted: the
  engine terminates or fails on the evaluation before the move, or the recorded move is
  illegal, or the engine terminates or fails on the evaluation after the move. Then the
  job still returns a result: it reports \<open>k\<close> plies analyzed, fewer than the length of
  the move sequence, a non-null note, and the per-side averages of the \<open>k\<close> scored
  plies, the same averages and accuracies as the job cut to those \<open>k\<close> moves (which
  ends without a note).
\<close>

theorem interrupted_job_partial_result:
  assumes fen: "new_board E (initial_fen j) = Inr b0"
      and moves: "uci_moves j = pre @ u # rest"
      and sk: "sk = analyze_loop E pre (initial_state b0)"
      and scored: "n_w sk + n_b sk = length pre"
      and stop: "isl (analyse E (calls sk) (board sk))
               \<or> push_uci E (board sk) u = None
               \<or> (\<exists>b. push_uci E (board sk) u = Some b \<and> isl (analyse E (calls sk + 1) b))"
  shows "\<exists>row. analyze_job E j = Inr row
           \<and> plies_analyzed row = length pre
           \<and> plies_analyzed row < length (uci_moves j)
           \<and> note_str row \<noteq> None
           \<and> acpl_white row = acpl_w sk / real (max 1 (n_w sk))
           \<and> acpl_black row = acpl_b sk / real (max 1 (n_b sk))
           \<and> (\<exists>row0. analyze_job E (j\<lparr>uci_moves := pre\<rparr>) = Inr row0
                 \<and> note_str row0 = None
                 \<and> plies_analyzed row0 = plies_analyzed row
                 \<and> acpl_white row0 = acpl_white row \<and> acpl_black row0 = acpl_black row
                 \<and> accuracy_white row0 = accuracy_white row
                 \<and> accuracy_black row0 = accuracy_black row)"
proof -
  have "isl (score_ply E sk u)"
    using stop unfolding score_ply_isl_iff
    by (auto simp: isl_def split: sum.splits option.splits)
  then obtain st' where st': "score_ply E sk u = Inl st'"
    by (cases "score_ply E sk u") simp_all
  have count0: "n_w (analyze_loop E pre (initial_state b0)) + n_b (analyze_loop E pre (initial_state b0))
      = n_w (initial_state b0) + n_b (initial_state b0) + length pre"
    using scored sk by (simp add: initial_state_def)
  have split: "analyze_loop E (pre @ u # rest) (initial_state b0) = analyze_loop E (u # rest) sk"
    and quiet: "note_list sk = []"
    using analyze_loop_all_scored [OF count0] sk by (simp_all add: initial_state_def)
  have final: "analyze_loop E (uci_moves j) (initial_state b0) = st'"
    using split st' moves by simp
  have keep: "note_list st' \<noteq> []" "acpl_w st' = acpl_w sk" "acpl_b st' = acpl_b sk"
    "n_w st' = n_w sk" "n_b st' = n_b sk"
    using score_ply_Inl [OF st'] by simp_all
  have full: "analyze_job E j = finish E (job_game_id j) st'"
    using fen final by (simp add: analyze_job_def)
  have trunc: "analyze_job E (j\<lparr>uci_moves := pre\<rparr>) = finish E (job_game_id j) sk"
    using fen sk by (simp add: analyze_job_def)
  show ?thesis
    unfolding full trunc finish_Inr using keep quiet scored moves by simp
qed

theorem interrupted_job_partial_result_witness:
  "new_board sample_env (initial_fen sample_job) = Inr 0
   \<and> uci_moves sample_job = [''e2e4'', ''e7e5''] @ ''g1f3'' # [''b8c6'']
   \<and> analyze_loop sample_env [''e2e4'', ''e7e5''] (initial_state 0) =
        \<lparr>board = 2, acpl_w = 100, acpl_b = 400, n_w = 1, n_b = 1, ply_idx = 2,
         note_list = [], calls = 4\<rparr>
   \<and> analyse sample_env 4 2 = Inl EngineTerminatedError
   \<and> (\<exists>row. analyze_job sample_env sample_job = Inr row
         \<and> plies_analyzed row = 2 \<and> note_str row = Some ''engine terminated''
         \<and> acpl_white row = 100 \<and> acpl_black row = 400)"
proof -
  let ?pre = "[''e2e4'', ''e7e5'']"
  let ?sk = "\<lparr>board = 2::nat, acpl_w = 100, acpl_b = 400, n_w = 1, n_b = 1, ply_idx = 2,
       note_list = [], calls = 4\<rparr>"
  have fen: "new_board sample_env (initial_fen sample_job) = Inr 0"
    by (simp add: sample_env_def sample_job_def)
  have moves: "uci_moves sample_job = ?pre @ ''g1f3'' # [''b8c6'']"
    by (simp add: sample_job_def)
  have sk: "?sk = analyze_loop sample_env ?pre (initial_state 0)"
    by (simp add: sample_env_def sample_replies_def initial_state_def score_ply_def
        SKIP_PLIES_def MAX_PLIES_def Let_def s_best_stm_def s_after_mover_def
        score_cp_white_def is_mate_def white_def)
  have scored: "n_w ?sk + n_b ?sk = length ?pre"
    by simp
  have dead: "analyse sample_env 4 2 = Inl EngineTerminatedError"
    by (simp add: sample_env_def sample_replies_def)
  have stop: "isl (analyse sample_env (calls ?sk) (board ?sk))
      \<or> push_uci sample_env (board ?sk) ''g1f3'' = None
      \<or> (\<exists>b. push_uci sample_env (board ?sk) ''g1f3'' = Some b
            \<and> isl (analyse sample_env (calls ?sk + 1) b))"
    using dead by simp
  have nstr: "analyze_job sample_env sample_job = Inr row \<Longrightarrow> note_str row = Some ''engine terminated''" for row
    by (simp add: analyze_job_def finish_Inr sample_env_def sample_job_def sample_replies_def
        initial_state_def score_ply_def SKIP_PLIES_def MAX_PLIES_def Let_def) auto
  from interrupted_job_partial_result [OF fen moves sk scored stop]
  obtain row where row: "analyze_job sample_env sample_job = Inr row"
    "plies_analyzed row = length ?pre"
    "acpl_white row = acpl_w ?sk / real (max 1 (n_w ?sk))"
    "acpl_black row = acpl_b ?sk / real (max 1 (n_b ?sk))"
    by blast
  have "plies_analyzed row = 2 \<and> note_str row = Some ''engine terminated''
      \<and> acpl_white row = 100 \<and> acpl_black row = 400"
    using row nstr [OF row(1)] by simp
  then show ?thesis
    using fen moves sk [symmetric] dead row(1) by auto
qed

text \<open>
  Claim C10. When the initial position string does not construct a board, the job
  returns normally with zero plies analyzed, average centipawn loss 0 and accuracy 100
  for both sides, and a note that begins with \<^verbatim>\<open>bad FEN\<close>.
\<close>

theorem bad_fen_result:
  assumes "new_board E (initial_fen j) = Inl e"
  shows "\<exists>row. analyze_job E j = Inr row
           \<and> game_id row = job_game_id j
           \<and> plies_analyzed row = 0
           \<and> acpl_white row = 0 \<and> acpl_black row = 0
           \<and> accuracy_white row = 100 \<and> accuracy_black row = 100
           \<and> note_str row = Some (''bad FEN: '' @ e)
           \<and> (\<exists>n. note_str row = Some n \<and> take 7 n = ''bad FEN'')"
proof -
  have "analyze_job E j =
      Inr \<lparr>game_id = job_game_id j, plies_analyzed = 0, acpl_white = 0, acpl_black = 0,
           accuracy_white = 100, accuracy_black = 100, ms_total = elapsed_ms E,
           engine = ''Stockfish'', movetime_ms = MOVETIME_MS, skipped_plies = SKIP_PLIES,
           note_str = Some (''bad FEN: '' @ e)\<rparr>"
    using assms by (simp add: analyze_job_def)
  then show ?thesis by simp
qed

theorem bad_fen_result_witness:
  "new_board sample_env (initial_fen (sample_job\<lparr>initial_fen := ''8/8''\<rparr>)) = Inl ''invalid FEN''
   \<and> (\<exists>row. analyze_job sample_env (sample_job\<lparr>initial_fen := ''8/8''\<rparr>) = Inr row
         \<and> plies_analyzed row = 0 \<and> accuracy_white row = 100 \<and> accuracy_black row = 100
         \<and> note_str row = Some ''bad FEN: invalid FEN'')"
proof -
  have h: "new_board sample_env (initial_fen (sample_job\<lparr>initial_fen := ''8/8''\<rparr>)) = Inl ''invalid FEN''"
    by (simp add: sample_env_def)
  show ?thesis
    using bad_fen_result [OF h] h by auto
qed

section \<open>Properties of the identity resolver\<close>

lemma resolve_player_id_None_iff:
  "resolve_player_id d name = None \<longleftrightarrow> name \<notin> set (map p_name (players d))"
proof -
  have "filter (\<lambda>p. p_name p = name) (players d) = [] \<longleftrightarrow> name \<notin> set (map p_name (players d))"
    by (auto simp: filter_empty_conv)
  then show ?thesis
    by (cases "filter (\<lambda>p. p_name p = name) (players d)")
      (simp_all add: resolve_player_id_def)
qed

lemma first_match_Some:
  "first_match d probe cands = Some g \<Longrightarrow>
     g \<in> set cands \<and> select_ucis d g (length probe) = probe"
  by (induction cands) (auto split: if_splits)

lemma first_match_None_iff:
  "first_match d probe cands = None \<longleftrightarrow>
     (\<forall>c\<in>set cands. select_ucis d c (length probe) \<noteq> probe)"
  by (induction cands) auto

lemma first_match_least:
  "sorted cands \<Longrightarrow> first_match d probe cands = Some g \<Longrightarrow>
     c \<in> set cands \<Longrightarrow> select_ucis d c (length probe) = probe \<Longrightarrow> g \<le> c"
  by (induction cands) (auto split: if_splits)

lemma sorted_candidate_ids:
  "sorted (candidate_ids d w_id b_id res date_iso ply_count)"
  by (simp add: candidate_ids_def select_games_dated_def select_games_undated_def
      split: option.splits)

lemma resolve_game_id_many:
  assumes "resolve_player_id d (white_name tags) = Some w_id"
      and "resolve_player_id d (black_name tags) = Some b_id"
      and "candidate_ids d w_id b_id (tag_or tags ''Result'' ''*'')
             (parse_pgn_date_to_iso (tags ''Date'')) (length us) = c # c' # cs"
  shows "resolve_game_id d tags us =
           (case first_match d (take 10 us) (c # c' # cs) of
              Some gid \<Rightarrow> Some gid
            | None \<Rightarrow> Some c)"
  using assms by (simp add: resolve_game_id_def Let_def)

text \<open>
  Claim C1. When both players are registered and the candidate query returns two or more
  identities \<open>cands\<close> (in ascending order), the resolver returns a candidate; with
  \<open>k = min 10 (length us)\<close>, if some candidate's first \<open>k\<close> stored moves equal the
  first \<open>k\<close> moves of the probe, the result is the lowest such candidate, and otherwise
  it is the lowest candidate. In particular, for two distinct candidates whose stored
  prefixes of length \<open>k\<close> differ, a probe whose prefix equals the stored prefix of one
  is never resolved to the other.
\<close>

theorem resolve_game_id_disambiguation:
  assumes w: "resolve_player_id d (white_name tags) = Some w_id"
      and b: "resolve_player_id d (black_name tags) = Some b_id"
      and cands: "cands = candidate_ids d w_id b_id (tag_or tags ''Result'' ''*'')
                            (parse_pgn_date_to_iso (tags ''Date'')) (length us)"
      and two: "2 \<le> length cands"
  defines "k \<equiv> min 10 (length us)"
  shows "sorted cands
       \<and> (\<exists>g. resolve_game_id d tags us = Some g \<and> g \<in> set cands
             \<and> (if \<exists>c\<in>set cands. select_ucis d c k = take k us
                 then select_ucis d g k = take k us
                      \<and> (\<forall>c\<in>set cands. select_ucis d c k = take k us \<longrightarrow> g \<le> c)
                 else \<forall>c\<in>set cands. g \<le> c))
       \<and> (\<forall>a\<in>set cands. \<forall>b\<in>set cands.
             a \<noteq> b \<and> select_ucis d a k \<noteq> select_ucis d b k \<and> take k us = select_ucis d a k
             \<longrightarrow> resolve_game_id d tags us \<noteq> Some b)"
proof -
  let ?probe = "take 10 us"
  have len: "length ?probe = k" by (simp add: k_def min.commute)
  have probe: "take k us = ?probe"
    by (cases "10 \<le> length us") (simp_all add: k_def)
  have srt: "sorted cands"
    unfolding cands by (rule sorted_candidate_ids)
  from two obtain c c' cs where shape: "cands = c # c' # cs"
    by (cases cands; cases "tl cands") auto
  have cq: "candidate_ids d w_id b_id (tag_or tags ''Result'' ''*'')
      (parse_pgn_date_to_iso (tags ''Date'')) (length us) = c # c' # cs"
    using cands shape by simp
  have res: "resolve_game_id d tags us =
      (case first_match d ?probe cands of Some gid \<Rightarrow> Some gid | None \<Rightarrow> Some c)"
    unfolding shape by (rule resolve_game_id_many [OF w b cq])
  have least: "\<forall>x\<in>set cands. c \<le> x"
    using srt shape by auto
  have main: "\<exists>g. resolve_game_id d tags us = Some g \<and> g \<in> set cands
             \<and> (if \<exists>c\<in>set cands. select_ucis d c k = take k us
                 then select_ucis d g k = take k us
                      \<and> (\<forall>c\<in>set cands. select_ucis d c k = take k us \<longrightarrow> g \<le> c)
                 else \<forall>c\<in>set cands. g \<le> c)"
  proof (cases "first_match d ?probe cands")
    case None
    then have no: "\<forall>x\<in>set cands. select_ucis d x k \<noteq> take k us"
      using first_match_None_iff [of d ?probe cands] len probe by simp
    have "resolve_game_id d tags us = Some c" using res None by simp
    moreover have "c \<in> set cands" using shape by simp
    ultimately show ?thesis using no least by auto
  next
    case (Some g)
    have g: "g \<in> set cands" "select_ucis d g k = take k us"
      using first_match_Some [OF Some] len probe by simp_all
    have min: "\<forall>x\<in>set cands. select_ucis d x k = take k us \<longrightarrow> g \<le> x"
      using first_match_least [OF srt Some] len probe by simp
    have "resolve_game_id d tags us = Some g" using res Some by simp
    then show ?thesis using g min by auto
  qed
  have uniq: "resolve_game_id d tags us \<noteq> Some y"
    if "x \<in> set cands" "y \<in> set cands" "x \<noteq> y"
      "select_ucis d x k \<noteq> select_ucis d y k" "take k us = select_ucis d x k" for x y
  proof -
    have ex: "\<exists>c\<in>set cands. select_ucis d c k = take k us" using that by auto
    from main obtain g where g: "resolve_game_id d tags us = Some g"
      "select_ucis d g k = take k us"
      using ex by auto
    have "g \<noteq> y" using g(2) that by auto
    then show ?thesis using g(1) by simp
  qed
  show ?thesis using srt main uniq by blast
qed

theorem resolve_game_id_disambiguation_witness:
  "resolve_player_id sample_db (white_name sample_tags) = Some 1
   \<and> resolve_player_id sample_db (black_name sample_tags) = Some 2
   \<and> candidate_ids sample_db 1 2 (tag_or sample_tags ''Result'' ''*'')
        (parse_pgn_date_to_iso (sample_tags ''Date'')) 3 = [10, 11]
   \<and> select_ucis sample_db 10 3 = [''e2e4'', ''e7e5'', ''g1f3'']
   \<and> select_ucis sample_db 11 3 = [''e2e4'', ''c7c5'', ''g1f3'']
   \<and> resolve_game_id sample_db sample_tags [''e2e4'', ''c7c5'', ''g1f3''] \<noteq> Some 10
   \<and> (\<exists>g. resolve_game_id sample_db sample_tags [''e2e4'', ''c7c5'', ''g1f3''] = Some g
         \<and> g \<in> set [10, 11]
         \<and> select_ucis sample_db g 3 = [''e2e4'', ''c7c5'', ''g1f3''])"
proof -
  let ?us = "[''e2e4'', ''c7c5'', ''g1f3'']"
  have w: "resolve_player_id sample_db (white_name sample_tags) = Some 1"
    by code_simp
  have b: "resolve_player_id sample_db (black_name sample_tags) = Some 2"
    by code_simp
  have c0: "candidate_ids sample_db 1 2 (tag_or sample_tags ''Result'' ''*'')
      (parse_pgn_date_to_iso (sample_tags ''Date'')) 3 = [10, 11]"
    by code_simp
  have c: "[10, 11] = candidate_ids sample_db 1 2 (tag_or sample_tags ''Result'' ''*'')
      (parse_pgn_date_to_iso (sample_tags ''Date'')) (length ?us)"
  proof -
    have "length ?us = 3" by simp
    then show ?thesis using c0 by (simp only:)
  qed
  have two: "2 \<le> length [10, 11 :: int]" by simp
  have s10: "select_ucis sample_db 10 3 = [''e2e4'', ''e7e5'', ''g1f3'']"
    by code_simp
  have s11: "select_ucis sample_db 11 3 = ?us"
    by code_simp
  note main = resolve_game_id_disambiguation [OF w b c two]
  have k: "min 10 (length ?us) = 3" by simp
  from main have ex: "\<exists>g. resolve_game_id sample_db sample_tags ?us = Some g \<and> g \<in> set [10, 11]
      \<and> (if \<exists>c\<in>set [10, 11]. select_ucis sample_db c 3 = take 3 ?us
          then select_ucis sample_db g 3 = take 3 ?us
             \<and> (\<forall>c\<in>set [10, 11]. select_ucis sample_db c 3 = take 3 ?us \<longrightarrow> g \<le> c)
          else \<forall>c\<in>set [10, 11]. g \<le> c)"
    unfolding k by blast
  have m: "\<exists>c\<in>set [10, 11]. select_ucis sample_db c 3 = take 3 ?us"
    using s11 by simp
  from ex m have found: "\<exists>g. resolve_game_id sample_db sample_tags ?us = Some g \<and> g \<in> set [10, 11]
      \<and> select_ucis sample_db g 3 = ?us"
    by (auto split: if_splits)
  then have "resolve_game_id sample_db sample_tags ?us \<noteq> Some 10"
    using s10 by auto
  then show ?thesis using w b c0 s10 s11 found by blast
qed

text \<open>
  Claim C9. When the white or the black player name of the tags (the name the resolver
  looks up: the tag, \<^verbatim>\<open>Unknown\<close> when it is missing or empty, with surrounding
  whitespace removed) is absent from the player registry, the resolver returns
  \<^verbatim>\<open>None\<close>. No step before the lookup can raise, and the resolver only reads the
  store: it is a function of the store and has no store to return.
\<close>

theorem resolve_game_id_unknown_player:
  assumes "white_name tags \<notin> set (map p_name (players d))
         \<or> black_name tags \<notin> set (map p_name (players d))"
  shows "resolve_game_id d tags us = None"
proof -
  have "resolve_player_id d (white_name tags) = None
      \<or> resolve_player_id d (black_name tags) = None"
    using assms by (simp only: resolve_player_id_None_iff)
  then show ?thesis
    by (auto simp: resolve_game_id_def Let_def split: option.splits)
qed

theorem resolve_game_id_unknown_player_witness:
  "white_name (sample_tags(''White'' \<mapsto> ''Carol'')) = ''Carol''
   \<and> ''Carol'' \<notin> set (map p_name (players sample_db))
   \<and> resolve_game_id sample_db (sample_tags(''White'' \<mapsto> ''Carol''))
        [''e2e4'', ''c7c5'', ''g1f3''] = None"
proof -
  have n: "white_name (sample_tags(''White'' \<mapsto> ''Carol'')) = ''Carol''"
    by code_simp
  have a: "''Carol'' \<notin> set (map p_name (players sample_db))"
    by (simp add: sample_db_def)
  have "white_name (sample_tags(''White'' \<mapsto> ''Carol'')) \<notin> set (map p_name (players sample_db))
      \<or> black_name (sample_tags(''White'' \<mapsto> ''Carol'')) \<notin> set (map p_name (players sample_db))"
    using n a by simp
  from resolve_game_id_unknown_player [OF this] n a show ?thesis by simp
qed










section \<open>Properties of the result store\<close>

lemma overwrite_all_columns:
  "game_id x = game_id r \<Longrightarrow>
   x\<lparr>plies_analyzed := plies_analyzed r,
     acpl_white := acpl_white r, acpl_black := acpl_black r,
     accuracy_white := accuracy_white r, accuracy_black := accuracy_black r,
     ms_total := ms_total r, engine := engine r,
     movetime_ms := movetime_ms r, skipped_plies := skipped_plies r,
     note_str := note_str r\<rparr> = (r :: analysis_row)"
  by (cases x, cases r) simp

lemma upsert_row_absent:
  "game_id r \<notin> set (map game_id t) \<Longrightarrow> upsert_row r t = t @ [r]"
  by (induction t) auto

lemma upsert_row_present:
  "distinct (map game_id t) \<Longrightarrow> game_id r \<in> set (map game_id t) \<Longrightarrow>
   upsert_row r t = map (\<lambda>x. if game_id x = game_id r then r else x) t"
proof (induction t)
  case Nil
  then show ?case by simp
next
  case (Cons x t)
  show ?case
  proof (cases "game_id x = game_id r")
    case True
    then have "game_id r \<notin> set (map game_id t)" using Cons.prems(1) by auto
    then have "map (\<lambda>y. if game_id y = game_id r then r else y) t = t"
      by (induction t) auto
    then show ?thesis using True by (simp add: overwrite_all_columns)
  next
    case False
    then show ?thesis using Cons by auto
  qed
qed

lemma upsert_row_ids:
  "set (map game_id (upsert_row r t)) = insert (game_id r) (set (map game_id t))"
  by (induction t) auto

lemma upsert_row_distinct:
  "distinct (map game_id t) \<Longrightarrow> distinct (map game_id (upsert_row r t))"
proof (induction t)
  case Nil
  then show ?case by simp
next
  case (Cons x t)
  then show ?case using upsert_row_ids [of r t] by auto
qed

lemma upsert_row_match:
  "distinct (map game_id t) \<Longrightarrow>
   filter (\<lambda>x. game_id x = game_id r) (upsert_row r t) = [r]"
proof (induction t)
  case Nil
  then show ?case by simp
next
  case (Cons x t)
  show ?case
  proof (cases "game_id x = game_id r")
    case True
    then have "game_id r \<notin> set (map game_id t)" using Cons.prems by auto
    then have "filter (\<lambda>y. game_id y = game_id r) t = []"
      by (induction t) auto
    then show ?thesis using True by (simp add: overwrite_all_columns)
  next
    case False
    then show ?thesis using Cons by simp
  qed
qed

lemma upsert_row_others:
  "filter (\<lambda>x. game_id x \<noteq> game_id r) (upsert_row r t) = filter (\<lambda>x. game_id x \<noteq> game_id r) t"
  by (induction t) auto

lemma upsert_row_overwrite:
  "game_id r1 = game_id r2 \<Longrightarrow> upsert_row r2 (upsert_row r1 t) = upsert_row r2 t"
  by (induction t) (auto simp: overwrite_all_columns)

lemma upsert_row_idem:
  "upsert_row r (upsert_row r t) = upsert_row r t"
proof (induction t)
  case Nil
  show ?case by (simp add: overwrite_all_columns)
next
  case (Cons x t)
  then show ?case by (simp add: overwrite_all_columns)
qed

text \<open>
  Claim C7, as stated for every store state, fails where the game identity of the rows is
  not a stored game: the foreign key rejects the write and no row is left.
\<close>

theorem upsert_missing_game:
  "game_id sample_row = game_id sample_row'
   \<and> upsert_analysis_batch empty_db [sample_row] = Inl IntegrityError
   \<and> upsert_analysis_batch empty_db [sample_row'] = Inl IntegrityError
   \<and> upsert_analysis_batch empty_db [sample_row, sample_row'] = Inl IntegrityError
   \<and> analysis empty_db = []"
  by (simp add: upsert_analysis_batch_def execute_upsert_def empty_db_def sample_row_def
      sample_row'_def)

text \<open>
  Claim C7, amended. In a store whose games table holds the game identity of two rows
  \<open>r1\<close> and \<open>r2\<close>, upserting \<open>r1\<close> and then \<open>r2\<close> succeeds and leaves exactly one
  row for that identity, equal to \<open>r2\<close> in every column; the rows of other identities
  are untouched, the result is the same as upserting \<open>r2\<close> alone or both in one batch,
  and upserting \<open>r2\<close> again changes nothing.
\<close>

theorem upsert_overwrites:
  assumes pk: "distinct (map game_id (analysis d))"
      and fk: "game_id r1 \<in> set (map g_id (games d))"
      and same: "game_id r1 = game_id r2"
  shows "\<exists>d1 d2. upsert_analysis_batch d [r1] = Inr d1
           \<and> upsert_analysis_batch d1 [r2] = Inr d2
           \<and> filter (\<lambda>x. game_id x = game_id r2) (analysis d2) = [r2]
           \<and> filter (\<lambda>x. game_id x \<noteq> game_id r2) (analysis d2)
               = filter (\<lambda>x. game_id x \<noteq> game_id r2) (analysis d)
           \<and> distinct (map game_id (analysis d2))
           \<and> upsert_analysis_batch d2 [r2] = Inr d2
           \<and> upsert_analysis_batch d [r1, r2] = Inr d2
           \<and> upsert_analysis_batch d [r2] = Inr d2"
proof -
  let ?d1 = "d\<lparr>analysis := upsert_row r1 (analysis d)\<rparr>"
  let ?d2 = "d\<lparr>analysis := upsert_row r2 (analysis d)\<rparr>"
  have fk2: "game_id r2 \<in> set (map g_id (games d))" using fk same by simp
  have one: "upsert_analysis_batch d [r1] = Inr ?d1"
    using fk by (simp add: upsert_analysis_batch_def execute_upsert_def)
  have two: "upsert_analysis_batch ?d1 [r2] = Inr ?d2"
    using fk2 by (simp add: upsert_analysis_batch_def execute_upsert_def upsert_row_overwrite [OF same])
  have again: "upsert_analysis_batch ?d2 [r2] = Inr ?d2"
    using fk2 by (simp add: upsert_analysis_batch_def execute_upsert_def upsert_row_idem)
  have batch: "upsert_analysis_batch d [r1, r2] = Inr ?d2"
    using fk fk2 by (simp add: upsert_analysis_batch_def execute_upsert_def upsert_row_overwrite [OF same])
  have direct: "upsert_analysis_batch d [r2] = Inr ?d2"
    using fk2 by (simp add: upsert_analysis_batch_def execute_upsert_def)
  have row: "filter (\<lambda>x. game_id x = game_id r2) (analysis ?d2) = [r2]"
    using upsert_row_match [OF pk] by simp
  have rest: "filter (\<lambda>x. game_id x \<noteq> game_id r2) (analysis ?d2)
      = filter (\<lambda>x. game_id x \<noteq> game_id r2) (analysis d)"
    using upsert_row_others by simp
  have dist: "distinct (map game_id (analysis ?d2))"
    using upsert_row_distinct [OF pk] by simp
  show ?thesis
    using one two again batch direct row rest dist by blast
qed

theorem upsert_overwrites_witness:
  "distinct (map game_id (analysis sample_db))
   \<and> game_id sample_row \<in> set (map g_id (games sample_db))
   \<and> game_id sample_row = game_id sample_row'
   \<and> (\<exists>d1 d2. upsert_analysis_batch sample_db [sample_row] = Inr d1
         \<and> upsert_analysis_batch d1 [sample_row'] = Inr d2
         \<and> analysis d1 = [sample_row]
         \<and> analysis d2 = [sample_row']
         \<and> upsert_analysis_batch d2 [sample_row'] = Inr d2)"
proof -
  have pk: "distinct (map game_id (analysis sample_db))"
    by (simp add: sample_db_def)
  have fk: "game_id sample_row \<in> set (map g_id (games sample_db))"
    by (simp add: sample_db_def sample_row_def)
  have same: "game_id sample_row = game_id sample_row'"
    by (simp add: sample_row_def sample_row'_def)
  have empty: "analysis sample_db = []"
    by (simp add: sample_db_def)
  from upsert_overwrites [OF pk fk same] obtain d1 d2 where
    d: "upsert_analysis_batch sample_db [sample_row] = Inr d1"
       "upsert_analysis_batch d1 [sample_row'] = Inr d2"
       "filter (\<lambda>x. game_id x = game_id sample_row') (analysis d2) = [sample_row']"
       "filter (\<lambda>x. game_id x \<noteq> game_id sample_row') (analysis d2)
          = filter (\<lambda>x. game_id x \<noteq> game_id sample_row') (analysis sample_db)"
       "upsert_analysis_batch d2 [sample_row'] = Inr d2"
    by blast
  have a1: "analysis d1 = [sample_row]"
    using d(1) fk by (auto simp: upsert_analysis_batch_def execute_upsert_def empty)
  have "analysis d2 = filter (\<lambda>x. game_id x = game_id sample_row') (analysis d2)"
    using d(4) unfolding empty by (simp add: filter_empty_conv filter_id_conv)
  then have a2: "analysis d2 = [sample_row']" using d(3) by simp
  show ?thesis using pk fk same d(1,2,5) a1 a2 by blast
qed

end
